theory Spec2Isabelle
  imports Main "HOL-Library.AList"
begin

section \<open>Python strings\<close>

text \<open>
  A Python \<open>str\<close> is modelled as a \<open>string\<close>: a list of 8-bit characters read as the
  code points U+0000 to U+00FF, so that the seventh truthy token is the two characters
  \<open>s\<close> and U+00ED.  On this range \<open>str.isspace\<close>, \<open>str.strip\<close> and \<open>str.lower\<close> are the
  functions below.
\<close>

definition isspace :: "char \<Rightarrow> bool" where
  "isspace c =
     (let n = (of_char c :: nat)
      in (9 \<le> n \<and> n \<le> 13) \<or> (28 \<le> n \<and> n \<le> 32) \<or> n = 133 \<or> n = 160)"

definition strip :: "string \<Rightarrow> string" where
  "strip s = rev (dropWhile isspace (rev (dropWhile isspace s)))"

definition lower_char :: "char \<Rightarrow> char" where
  "lower_char c =
     (let n = (of_char c :: nat)
      in if (65 \<le> n \<and> n \<le> 90) \<or> (192 \<le> n \<and> n \<le> 222 \<and> n \<noteq> 215)
         then char_of (n + 32) else c)"

definition lower :: "string \<Rightarrow> string" where
  "lower s = map lower_char s"

section \<open>XML elements\<close>

text \<open>
  An \<open>xml.etree\<close> element as far as the importer reads it: its tag, its text (\<open>None\<close> when
  the element has none) and its child elements.  \<open>findall\<close> and \<open>find\<close> are called with plain
  tag names, for which they select the direct children with that tag, all of them or the
  first one.  They also accept paths (\<open>*\<close>, \<open>a/b\<close>, predicates) and raise on a path that
  is not well formed; tags that are not plain names are outside the model.
\<close>

datatype element = Element (tag: string) (elem_text: "string option") (children: "element list")

definition findall :: "element \<Rightarrow> string \<Rightarrow> element list" where
  "findall e t = filter (\<lambda>c. tag c = t) (children e)"

definition find_elem :: "element \<Rightarrow> string \<Rightarrow> element option" where
  "find_elem e t = List.find (\<lambda>c. tag c = t) (children e)"

text \<open>\<^verbatim>\<open>return elem.text.strip() if (elem is not None and elem.text) else None\<close>\<close>

definition get_text :: "element option \<Rightarrow> string option" where
  "get_text elem =
     (case elem of
        None \<Rightarrow> None
      | Some e \<Rightarrow>
          (case elem_text e of
             None \<Rightarrow> None
           | Some t \<Rightarrow> if t = [] then None else Some (strip t)))"

section \<open>Values, column types and exceptions\<close>

text \<open>
  The values a column can receive.  The type \<open>'f\<close> of floating-point numbers is left open,
  and the builtins \<open>int\<close> and \<open>float\<close> applied to a \<open>str\<close> are parameters of the model:
  each either returns a number or raises \<open>ValueError\<close> (the result \<open>None\<close>).
\<close>

datatype 'f pyval = VNone | VStr string | VInt int | VFloat 'f | VBool bool

text \<open>
  The classes that \<open>isinstance\<close> tests the column type against, and \<open>OtherType\<close> for a
  column type that is an instance of none of them.
\<close>

datatype col_type = String | Text | Integer | BigInteger | Float | Boolean | OtherType

text \<open>The three classes of exception that the import loop tells apart.\<close>

datatype exn = ValueError | IntegrityError | OtherException

type_synonym 'f row = "(string \<times> 'f pyval) list"

text \<open>
  The environment of a run: the two builtins, and the constraints of the database, which
  may refuse a new row (with \<open>IntegrityError\<close> or another exception) depending on the rows
  already stored.
\<close>

record 'f env =
  py_int :: "string \<Rightarrow> int option"
  py_float :: "string \<Rightarrow> 'f option"
  db_reject :: "'f row list \<Rightarrow> 'f row \<Rightarrow> exn option"

definition truthy_tokens :: "string list" where
  "truthy_tokens =
     [''1'', ''true'', ''t'', ''yes'', ''y'', ''si'', [CHR ''s'', CHR 0xED]]"

fun definir_tipo_de_valor :: "'f env \<Rightarrow> string option \<Rightarrow> col_type \<Rightarrow> exn + 'f pyval" where
  "definir_tipo_de_valor E None col_type = Inr VNone"
| "definir_tipo_de_valor E (Some v) col_type =
     (if col_type = String \<or> col_type = Text then Inr (VStr v)
      else if col_type = Integer \<or> col_type = BigInteger then
        (case py_int E v of None \<Rightarrow> Inl ValueError | Some n \<Rightarrow> Inr (VInt n))
      else if col_type = Float then
        (case py_float E v of None \<Rightarrow> Inl ValueError | Some x \<Rightarrow> Inr (VFloat x))
      else if col_type = Boolean then Inr (VBool (lower v \<in> set truthy_tokens))
      else Inr (VStr v))"

section \<open>The model, the arguments of a run and the database session\<close>

text \<open>
  What the importer reads of the SQLAlchemy model: the columns of its table, in order, and
  the names of the columns of its primary key.
\<close>

record model =
  columns :: "(string \<times> col_type) list"
  primary_key :: "string list"

text \<open>\<^verbatim>\<open>return {col.name: col.type for col in model.__table__.columns}\<close>\<close>

definition model_columns :: "model \<Rightarrow> (string \<times> col_type) list" where
  "model_columns m = fold (\<lambda>(n, t). AList.update n t) (columns m) []"

text \<open>\<^verbatim>\<open>pk_name = next((c.name for c in model.__table__.primary_key.columns), "id")\<close>\<close>

definition pk_name_of :: "model \<Rightarrow> string" where
  "pk_name_of m = (case primary_key m of [] \<Rightarrow> ''id'' | c # _ \<Rightarrow> c)"

text \<open>
  The arguments of \<open>importar_datos\<close> other than the file.  An absent \<open>field_map\<close> or
  \<open>transforms\<close> is the empty map.  A transform returns a value or raises.
\<close>

record 'f args =
  model :: model
  item_tag :: string
  field_map :: "string \<rightharpoonup> string"
  pk_from :: "string option"
  transforms :: "string \<rightharpoonup> (string option \<Rightarrow> exn + 'f pyval)"

text \<open>What \<open>print\<close> writes, by kind of line; the final summary carries the three counters.\<close>

datatype msg =
    MsgNoEncontrado
  | MsgImportando
  | MsgErrorParseo
  | MsgDuplicado
  | MsgErrorValor
  | MsgErrorIntegridad
  | MsgErrorItem
  | MsgFinal nat nat nat

text \<open>
  The state that the import loop works on: the rows committed to the table, the objects
  added to the session and not yet committed, the three counters and the lines printed.
  The primary key of the table is the one column \<open>pk_name\<close>, and a row is identified by
  its value in that column.
\<close>

record 'f state =
  committed :: "'f row list"
  pending :: "'f row list"
  insertados :: nat
  duplicados :: nat
  errores :: nat
  printed :: "msg list"

text \<open>\<^verbatim>\<open>data.get(pk_name)\<close>\<close>

definition dict_get :: "'f row \<Rightarrow> string \<Rightarrow> 'f pyval" where
  "dict_get data k = (case map_of data k of None \<Rightarrow> VNone | Some v \<Rightarrow> v)"

definition session_get :: "'f state \<Rightarrow> string \<Rightarrow> 'f pyval \<Rightarrow> 'f row option" where
  "session_get s pk_name pk_val =
     List.find (\<lambda>r. map_of r pk_name = Some pk_val) (committed s)"

definition session_add :: "'f state \<Rightarrow> 'f row \<Rightarrow> 'f state" where
  "session_add s obj = s\<lparr>pending := pending s @ [obj]\<rparr>"

text \<open>
  \<open>session_get\<close> looks a key up among the committed rows and raises nothing.  A commit
  writes the pending objects one after the other; the first one that the database refuses
  raises, and then nothing of the transaction is stored.  A rollback discards the pending
  objects.
\<close>

fun flush :: "'f env \<Rightarrow> 'f row list \<Rightarrow> 'f row list \<Rightarrow> exn + 'f row list" where
  "flush E db [] = Inr db"
| "flush E db (r # rs) =
     (case db_reject E db r of
        Some e \<Rightarrow> Inl e
      | None \<Rightarrow> flush E (db @ [r]) rs)"

definition session_commit :: "'f env \<Rightarrow> 'f state \<Rightarrow> exn + 'f state" where
  "session_commit E s =
     (case flush E (committed s) (pending s) of
        Inl e \<Rightarrow> Inl e
      | Inr db \<Rightarrow> Inr (s\<lparr>committed := db, pending := []\<rparr>))"

definition session_rollback :: "'f state \<Rightarrow> 'f state" where
  "session_rollback s = s\<lparr>pending := []\<rparr>"

section \<open>The import loop\<close>

text \<open>
  Lines 103 to 107: the tag that a column is read from.
  \<^verbatim>\<open>
  xml_tag = field_map.get(col_name, col_name)
  if col_name == pk_name and pk_from:
      xml_tag = pk_from
  \<close>
\<close>

definition xml_tag :: "'f args \<Rightarrow> string \<Rightarrow> string \<Rightarrow> string" where
  "xml_tag A pk_name col_name =
     (let t = (case field_map A col_name of None \<Rightarrow> col_name | Some t' \<Rightarrow> t')
      in case pk_from A of
           None \<Rightarrow> t
         | Some p \<Rightarrow> if col_name = pk_name \<and> p \<noteq> [] then p else t)"

text \<open>Lines 109 to 116: the value of one column of one record.\<close>

definition col_value ::
  "'f env \<Rightarrow> 'f args \<Rightarrow> string \<Rightarrow> element \<Rightarrow> string \<Rightarrow> col_type \<Rightarrow> exn + 'f pyval" where
  "col_value E A pk_name item col_name ct =
     (let raw = get_text (find_elem item (xml_tag A pk_name col_name))
      in case transforms A col_name of
           Some f \<Rightarrow> f raw
         | None \<Rightarrow> definir_tipo_de_valor E raw ct)"

text \<open>Lines 100 to 118: the loop over the columns, which stops at the first exception.\<close>

fun build_data ::
  "'f env \<Rightarrow> 'f args \<Rightarrow> string \<Rightarrow> element \<Rightarrow> (string \<times> col_type) list \<Rightarrow> 'f row
     \<Rightarrow> exn + 'f row" where
  "build_data E A pk_name item [] data = Inr data"
| "build_data E A pk_name item ((col_name, ct) # cols) data =
     (case col_value E A pk_name item col_name ct of
        Inl e \<Rightarrow> Inl e
      | Inr val \<Rightarrow> build_data E A pk_name item cols (AList.update col_name val data))"

text \<open>
  Lines 100 to 134, the body of \<open>try\<close>: either an exception and the state it was raised
  in, or the state at the end of the body (also when it ends with \<open>continue\<close>).
\<close>

definition try_body ::
  "'f env \<Rightarrow> 'f args \<Rightarrow> string \<Rightarrow> (string \<times> col_type) list \<Rightarrow> 'f state \<Rightarrow> element
     \<Rightarrow> (exn \<times> 'f state) + 'f state" where
  "try_body E A pk_name cols s item =
     (case build_data E A pk_name item cols [] of
        Inl e \<Rightarrow> Inl (e, s)
      | Inr data \<Rightarrow>
          (let pk_val = dict_get data pk_name
           in if pk_val = VNone then Inl (ValueError, s)
              else if session_get s pk_name pk_val \<noteq> None then
                Inr (s\<lparr>printed := printed s @ [MsgDuplicado], duplicados := duplicados s + 1\<rparr>)
              else
                (let s1 = session_add s data
                 in case session_commit E s1 of
                      Inl e \<Rightarrow> Inl (e, s1)
                    | Inr s2 \<Rightarrow> Inr (s2\<lparr>insertados := insertados s2 + 1\<rparr>))))"

text \<open>Lines 136 to 147: the three handlers differ in the line they print.\<close>

definition except_handler :: "exn \<Rightarrow> 'f state \<Rightarrow> 'f state" where
  "except_handler e s =
     (session_rollback s)
       \<lparr>printed := printed s @
          [case e of
             ValueError \<Rightarrow> MsgErrorValor
           | IntegrityError \<Rightarrow> MsgErrorIntegridad
           | OtherException \<Rightarrow> MsgErrorItem],
        errores := errores s + 1\<rparr>"

definition importar_item ::
  "'f env \<Rightarrow> 'f args \<Rightarrow> string \<Rightarrow> (string \<times> col_type) list \<Rightarrow> 'f state \<Rightarrow> element
     \<Rightarrow> 'f state" where
  "importar_item E A pk_name cols s item =
     (case try_body E A pk_name cols s item of
        Inl (e, s') \<Rightarrow> except_handler e s'
      | Inr s' \<Rightarrow> s')"

fun importar_loop ::
  "'f env \<Rightarrow> 'f args \<Rightarrow> string \<Rightarrow> (string \<times> col_type) list \<Rightarrow> element list \<Rightarrow> 'f state
     \<Rightarrow> 'f state" where
  "importar_loop E A pk_name cols [] s = s"
| "importar_loop E A pk_name cols (item # items) s =
     importar_loop E A pk_name cols items (importar_item E A pk_name cols s item)"

text \<open>
  Lines 91 to 147 on a parsed document: the state after the loop, started on the rows of
  the table with an empty session and the counters at zero.
\<close>

definition importar_items :: "'f env \<Rightarrow> 'f args \<Rightarrow> element \<Rightarrow> 'f row list \<Rightarrow> 'f state" where
  "importar_items E A root db =
     importar_loop E A (pk_name_of (model A)) (model_columns (model A))
       (findall root (item_tag A))
       \<lparr>committed = db, pending = [], insertados = 0, duplicados = 0, errores = 0,
        printed = [MsgImportando]\<rparr>"

text \<open>
  What is at the resolved path: no file, a file that is not well-formed XML, or a document
  with its root element.
\<close>

datatype source = NoExiste | NoParsea | Documento element

text \<open>
  \<open>importar_datos\<close> returns nothing: its effects are the rows of the table and the lines
  printed.  (\<open>db.create_all()\<close> creates missing tables and no row.)
\<close>

definition importar_datos ::
  "'f env \<Rightarrow> source \<Rightarrow> 'f args \<Rightarrow> 'f row list \<Rightarrow> 'f row list \<times> msg list" where
  "importar_datos E src A db =
     (case src of
        NoExiste \<Rightarrow> (db, [MsgNoEncontrado])
      | NoParsea \<Rightarrow> (db, [MsgImportando, MsgErrorParseo])
      | Documento root \<Rightarrow>
          (let s = importar_items E A root db
           in (committed s,
               printed s @ [MsgFinal (insertados s) (duplicados s) (errores s)])))"

section \<open>Notions used in the statements\<close>

text \<open>Two strings are equal up to case when their lower-case forms are equal.\<close>

definition eq_ignore_case :: "string \<Rightarrow> string \<Rightarrow> bool" where
  "eq_ignore_case a b = (lower a = lower b)"

text \<open>
  The condition under which the body of the loop reaches \<open>continue\<close> (line 129): the
  values of the record are built without an exception, its primary key is not \<open>None\<close>, and
  the session finds a row with that key.
\<close>

definition es_duplicado ::
  "'f env \<Rightarrow> 'f args \<Rightarrow> string \<Rightarrow> (string \<times> col_type) list \<Rightarrow> 'f state \<Rightarrow> element \<Rightarrow> bool" where
  "es_duplicado E A pk_name cols s item =
     (case build_data E A pk_name item cols [] of
        Inl e \<Rightarrow> False
      | Inr data \<Rightarrow>
          dict_get data pk_name \<noteq> VNone
          \<and> session_get s pk_name (dict_get data pk_name) \<noteq> None)"

text \<open>
  A record that a table with the rows \<open>db\<close> cannot receive: its values are not built, or
  its primary key is \<open>None\<close>, or a row has its key, or the database refuses its row.
\<close>

definition not_insertable ::
  "'f env \<Rightarrow> 'f args \<Rightarrow> string \<Rightarrow> (string \<times> col_type) list \<Rightarrow> 'f row list \<Rightarrow> element \<Rightarrow> bool" where
  "not_insertable E A pk_name cols db item =
     (case build_data E A pk_name item cols [] of
        Inl e \<Rightarrow> True
      | Inr data \<Rightarrow>
          dict_get data pk_name = VNone
          \<or> List.find (\<lambda>r. map_of r pk_name = Some (dict_get data pk_name)) db \<noteq> None
          \<or> db_reject E db data \<noteq> None)"

text \<open>
  The constraints of the database are stable when a row that is refused stays refused as
  rows are added to the table, as with not-null, check and unique constraints.
\<close>

definition stable_constraints :: "'f env \<Rightarrow> bool" where
  "stable_constraints E =
     (\<forall>db r ext. db_reject E db r \<noteq> None \<longrightarrow> db_reject E (db @ ext) r \<noteq> None)"

section \<open>An environment and inputs for the examples\<close>

text \<open>
  \<open>int_literal\<close> is \<open>int\<close> on a \<open>str\<close> (Python 3.11): surrounding whitespace, which for
  \<open>int\<close> does not include U+001C to U+001F, an optional sign, and at most 4300 decimal
  digits in which single underscores may separate digits.
\<close>

definition is_digit :: "char \<Rightarrow> bool" where
  "is_digit c = (let n = (of_char c :: nat) in 48 \<le> n \<and> n \<le> 57)"

definition digit_val :: "char \<Rightarrow> nat" where
  "digit_val c = of_char c - 48"

fun digits_value :: "nat \<Rightarrow> string \<Rightarrow> nat option" where
  "digits_value acc [] = Some acc"
| "digits_value acc [c] = (if is_digit c then Some (10 * acc + digit_val c) else None)"
| "digits_value acc (c # d # cs) =
     (if is_digit c then digits_value (10 * acc + digit_val c) (d # cs)
      else if c = CHR ''_'' \<and> is_digit d then digits_value (10 * acc + digit_val d) cs
      else None)"

definition unsigned_value :: "string \<Rightarrow> nat option" where
  "unsigned_value s =
     (case s of
        [] \<Rightarrow> None
      | c # cs \<Rightarrow> if is_digit c then digits_value (digit_val c) cs else None)"

definition int_space :: "char \<Rightarrow> bool" where
  "int_space c =
     (let n = (of_char c :: nat)
      in (9 \<le> n \<and> n \<le> 13) \<or> n = 32 \<or> n = 133 \<or> n = 160)"

definition int_literal :: "string \<Rightarrow> int option" where
  "int_literal s =
     (let t = rev (dropWhile int_space (rev (dropWhile int_space s)))
      in if 4300 < length (filter is_digit t) then None
         else
           (case t of
              [] \<Rightarrow> None
            | c # cs \<Rightarrow>
                if c = CHR ''-'' then map_option (\<lambda>n. - int n) (unsigned_value cs)
                else if c = CHR ''+'' then map_option int (unsigned_value cs)
                else map_option int (unsigned_value (c # cs))))"

text \<open>
  In the examples a float of integral value is written as that integer, and the database
  has no constraint of its own.  The \<open>py_float\<close> of the examples is \<open>float\<close> on the
  strings they apply it to, an integer literal and strings that \<open>float\<close> refuses; it is
  not \<open>float\<close> on strings such as \<open>1e3\<close> or \<open>1.5\<close>.
\<close>

definition env0 :: "int env" where
  "env0 = \<lparr>py_int = int_literal, py_float = int_literal, db_reject = (\<lambda>db r. None)\<rparr>"

definition modelo0 :: model where
  "modelo0 = \<lparr>columns = [(''id'', Integer), (''nombre'', String)], primary_key = [''id'']\<rparr>"

definition args0 :: "int args" where
  "args0 = \<lparr>model = modelo0, item_tag = ''_exportar'', field_map = Map.empty,
             pk_from = None, transforms = Map.empty\<rparr>"

text \<open>
  A second environment, whose database refuses a row when its \<open>nombre\<close> is not \<open>None\<close>
  and a stored row has the same \<open>nombre\<close> (a unique constraint on that column).
\<close>

definition env1 :: "int env" where
  "env1 = \<lparr>py_int = int_literal, py_float = int_literal,
           db_reject = (\<lambda>db r. if dict_get r ''nombre'' \<noteq> VNone
                                   \<and> list_ex (\<lambda>row. dict_get row ''nombre'' = dict_get r ''nombre'') db
                                then Some IntegrityError else None)\<rparr>"

text \<open>
  A record element with the sub-elements \<open>id\<close> and \<open>nombre\<close>, one without \<open>id\<close>, and
  a document with the given record elements under its root.
\<close>

definition registro :: "string \<Rightarrow> string \<Rightarrow> element" where
  "registro i n =
     Element ''_exportar'' None [Element ''id'' (Some i) [], Element ''nombre'' (Some n) []]"

definition registro_sin_id :: "string \<Rightarrow> element" where
  "registro_sin_id n = Element ''_exportar'' None [Element ''nombre'' (Some n) []]"

definition documento :: "element list \<Rightarrow> element" where
  "documento items = Element ''datos'' None items"

text \<open>
  The arguments with a transform on \<open>nombre\<close> that raises an exception that is not a value
  error, and a model with a second integer column, with its arguments and its records.
\<close>

definition args1 :: "int args" where
  "args1 = args0\<lparr>transforms := [''nombre'' \<mapsto> (\<lambda>raw. Inl OtherException)]\<rparr>"

definition modelo2 :: model where
  "modelo2 = \<lparr>columns = [(''id'', Integer), (''edad'', Integer)], primary_key = [''id'']\<rparr>"

definition args2 :: "int args" where
  "args2 = args0\<lparr>model := modelo2\<rparr>"

definition registro_edad :: "string \<Rightarrow> string \<Rightarrow> element" where
  "registro_edad i e =
     Element ''_exportar'' None [Element ''id'' (Some i) [], Element ''edad'' (Some e) []]"

section \<open>Type coercion\<close>

lemma lower_truthy_tokens: "map lower truthy_tokens = truthy_tokens"
  unfolding truthy_tokens_def by code_simp

lemma member_truthy_tokens:
  "(lower v \<in> set truthy_tokens) = (\<exists>t \<in> set truthy_tokens. eq_ignore_case v t)"
proof -
  have "(\<exists>t \<in> set truthy_tokens. lower v = lower t) = (lower v \<in> set (map lower truthy_tokens))"
    by auto
  then show ?thesis
    by (simp add: eq_ignore_case_def lower_truthy_tokens)
qed

text \<open>
  C3: for every string, the coercion to a boolean column raises nothing and returns true
  exactly when the string is, up to case, one of the seven tokens \<open>1\<close>, \<open>true\<close>, \<open>t\<close>,
  \<open>yes\<close>, \<open>y\<close>, \<open>si\<close> and \<open>s\<close> followed by U+00ED; it returns false for every other string.
\<close>

theorem boolean_coercion:
  "definir_tipo_de_valor E (Some v) Boolean =
     Inr (VBool (\<exists>t \<in> {''1'', ''true'', ''t'', ''yes'', ''y'', ''si'', [CHR ''s'', CHR 0xED]}.
                   eq_ignore_case v t))"
proof -
  have "set truthy_tokens = {''1'', ''true'', ''t'', ''yes'', ''y'', ''si'', [CHR ''s'', CHR 0xED]}"
    by (simp add: truthy_tokens_def)
  then show ?thesis
    using member_truthy_tokens [of v] by simp
qed

theorem boolean_coercion_witness:
  "definir_tipo_de_valor env0 (Some ''YES'') Boolean = Inr (VBool True)
   \<and> definir_tipo_de_valor env0 (Some [CHR ''S'', CHR 0xCD]) Boolean = Inr (VBool True)
   \<and> definir_tipo_de_valor env0 (Some ''no'') Boolean = Inr (VBool False)"
proof -
  have a: "lower ''YES'' = ''yes''" by code_simp
  have b: "lower [CHR ''S'', CHR 0xCD] = [CHR ''s'', CHR 0xED]" by code_simp
  have c: "lower ''no'' = ''no''" by code_simp
  have l: "lower ''1'' = ''1''" "lower ''true'' = ''true''" "lower ''t'' = ''t''"
    "lower ''yes'' = ''yes''" "lower ''y'' = ''y''" "lower ''si'' = ''si''"
    "lower [CHR ''s'', CHR 0xED] = [CHR ''s'', CHR 0xED]" by code_simp+
  show ?thesis
    using boolean_coercion [of env0 "''YES''"] boolean_coercion [of env0 "[CHR ''S'', CHR 0xCD]"]
      boolean_coercion [of env0 "''no''"]
    by (simp add: eq_ignore_case_def a b c l)
qed

text \<open>
  C4: an absent value is coerced to \<open>None\<close> whatever the column type; for a text column
  and for an unrecognised column type the string is returned unchanged; for an integer
  column the result is what \<open>int\<close> returns and for a float column what \<open>float\<close> returns;
  and the coercion raises only \<open>ValueError\<close>, and only when \<open>int\<close> or \<open>float\<close> refuses
  the string of an integer or float column.
\<close>

theorem type_coercion:
  "definir_tipo_de_valor E None ct = Inr VNone
   \<and> (ct \<in> {String, Text, OtherType} \<longrightarrow> definir_tipo_de_valor E (Some v) ct = Inr (VStr v))
   \<and> (ct \<in> {Integer, BigInteger} \<longrightarrow>
        definir_tipo_de_valor E (Some v) ct =
          (case py_int E v of None \<Rightarrow> Inl ValueError | Some n \<Rightarrow> Inr (VInt n)))
   \<and> (ct = Float \<longrightarrow>
        definir_tipo_de_valor E (Some v) ct =
          (case py_float E v of None \<Rightarrow> Inl ValueError | Some x \<Rightarrow> Inr (VFloat x)))
   \<and> (\<forall>e. definir_tipo_de_valor E (Some v) ct = Inl e \<longrightarrow>
          e = ValueError
          \<and> (ct \<in> {Integer, BigInteger} \<and> py_int E v = None \<or> ct = Float \<and> py_float E v = None))"
  by (cases ct) (auto split: option.splits)

theorem type_coercion_witness:
  "definir_tipo_de_valor env0 None Integer = Inr VNone
   \<and> definir_tipo_de_valor env0 (Some ''abc'') Text = Inr (VStr ''abc'')
   \<and> definir_tipo_de_valor env0 (Some ''12'') Integer = Inr (VInt 12)
   \<and> definir_tipo_de_valor env0 (Some ''12'') Float = Inr (VFloat 12)
   \<and> definir_tipo_de_valor env0 (Some ''x1'') BigInteger = Inl ValueError"
proof -
  have a: "py_int env0 ''12'' = Some 12" "py_float env0 ''12'' = Some 12"
    "py_int env0 ''x1'' = None" by code_simp+
  show ?thesis
    using type_coercion [of env0 Integer "''12''"] type_coercion [of env0 Text "''abc''"]
      type_coercion [of env0 Float "''12''"] type_coercion [of env0 BigInteger "''x1''"]
    by (simp add: a)
qed

section \<open>Text extraction\<close>

lemma rev_dropWhile_takeWhile:
  "rev (dropWhile P xs) @ rev (takeWhile P xs) = rev xs"
  by (simp only: rev_append [symmetric] takeWhile_dropWhile_id)

lemma dropWhile_strip:
  "dropWhile isspace s = strip s @ rev (takeWhile isspace (rev (dropWhile isspace s)))"
  using rev_dropWhile_takeWhile [of isspace "rev (dropWhile isspace s)"]
  by (simp add: strip_def)

lemma strip_decomp:
  "\<exists>l r. s = l @ strip s @ r \<and> (\<forall>c \<in> set l. isspace c) \<and> (\<forall>c \<in> set r. isspace c)"
proof -
  let ?l = "takeWhile isspace s"
  let ?r = "rev (takeWhile isspace (rev (dropWhile isspace s)))"
  have "s = ?l @ dropWhile isspace s" by simp
  with dropWhile_strip [of s] have 1: "s = ?l @ strip s @ ?r" by simp
  have 2: "\<forall>c \<in> set ?l. isspace c"
    by (meson set_takeWhileD)
  have 3: "\<forall>c \<in> set ?r. isspace c"
    by (metis set_rev set_takeWhileD)
  from 1 2 3 show ?thesis by blast
qed

lemma strip_ends:
  assumes "strip s \<noteq> []"
  shows "\<not> isspace (hd (strip s)) \<and> \<not> isspace (last (strip s))"
proof -
  let ?m = "dropWhile isspace s"
  let ?d = "dropWhile isspace (rev ?m)"
  from assms have d: "?d \<noteq> []" by (simp add: strip_def)
  then have "\<not> isspace (hd ?d)" by (rule hd_dropWhile)
  with d have l: "\<not> isspace (last (strip s))" by (simp add: strip_def last_rev)
  have m: "?m \<noteq> []"
  proof
    assume "?m = []"
    then have "?d = []" by (simp only: rev.simps(1) dropWhile.simps(1))
    with d show False by (simp only: not_True_eq_False simp_thms)
  qed
  then have hm: "\<not> isspace (hd ?m)" by (rule hd_dropWhile)
  from assms dropWhile_strip [of s] have "hd ?m = hd (strip s)" by (metis hd_append2)
  with hm l show ?thesis by simp
qed

lemma strip_all_space:
  assumes "\<forall>c \<in> set s. isspace c"
  shows "strip s = []"
proof -
  from assms have "dropWhile isspace s = []" by (simp only: dropWhile_eq_Nil_conv)
  then show ?thesis by (simp only: strip_def rev.simps(1) dropWhile.simps(1))
qed

text \<open>
  C8, as the code has it: the extraction returns \<open>None\<close> exactly when the sub-element is
  absent or its text is \<open>None\<close> or the empty string; otherwise it returns the text without
  its leading and trailing whitespace.  For a text that is not empty and consists of
  whitespace only, it returns the empty string.
\<close>

theorem get_text_trimmed:
  "(get_text elem = None \<longleftrightarrow>
      elem = None \<or> elem_text (the elem) = None \<or> elem_text (the elem) = Some [])
   \<and> (\<forall>t. get_text elem = Some t \<longrightarrow>
         (\<exists>e s l r. elem = Some e \<and> elem_text e = Some s \<and> s = l @ t @ r
            \<and> (\<forall>c \<in> set l. isspace c) \<and> (\<forall>c \<in> set r. isspace c)
            \<and> (t \<noteq> [] \<longrightarrow> \<not> isspace (hd t) \<and> \<not> isspace (last t))))
   \<and> (\<forall>e s. elem = Some e \<and> elem_text e = Some s \<and> s \<noteq> [] \<and> (\<forall>c \<in> set s. isspace c) \<longrightarrow>
         get_text elem = Some [])"
proof (intro conjI allI impI)
  show "get_text elem = None \<longleftrightarrow>
      elem = None \<or> elem_text (the elem) = None \<or> elem_text (the elem) = Some []"
    by (auto simp: get_text_def split: option.splits)
next
  fix t assume a: "get_text elem = Some t"
  then obtain e s where e: "elem = Some e" "elem_text e = Some s" "s \<noteq> []" "t = strip s"
    by (auto simp: get_text_def split: option.splits if_splits)
  from strip_decomp [of s] obtain l r where
    "s = l @ strip s @ r" "\<forall>c \<in> set l. isspace c" "\<forall>c \<in> set r. isspace c" by blast
  with e strip_ends [of s]
  show "\<exists>e s l r. elem = Some e \<and> elem_text e = Some s \<and> s = l @ t @ r
            \<and> (\<forall>c \<in> set l. isspace c) \<and> (\<forall>c \<in> set r. isspace c)
            \<and> (t \<noteq> [] \<longrightarrow> \<not> isspace (hd t) \<and> \<not> isspace (last t))"
    by blast
next
  fix e s assume "elem = Some e \<and> elem_text e = Some s \<and> s \<noteq> [] \<and> (\<forall>c \<in> set s. isspace c)"
  then show "get_text elem = Some []"
    by (simp add: get_text_def strip_all_space)
qed

theorem get_text_trimmed_witness:
  "get_text (Some (Element ''id'' (Some '' 7 '') [])) = Some ''7''
   \<and> get_text (Some (Element ''id'' (Some ''  '') [])) = Some []
   \<and> get_text (Some (Element ''id'' (Some '''') [])) = None"
  using get_text_trimmed [of "Some (Element ''id'' (Some '' 7 '') [])"]
    get_text_trimmed [of "Some (Element ''id'' (Some ''  '') [])"]
    get_text_trimmed [of "Some (Element ''id'' (Some '''') [])"]
  by (simp add: get_text_def strip_def isspace_def)

text \<open>
  The text of two spaces consists of whitespace only, and its extraction is the empty
  string, not \<open>None\<close>.
\<close>

theorem get_text_whitespace_counterexample:
  "isspace CHR '' '' \<and> get_text (Some (Element ''id'' (Some ''  '') [])) = Some []"
  by (simp add: get_text_def strip_def isspace_def)

section \<open>The source tag of a column\<close>

text \<open>
  C5, as the code has it: the tag of a column is the primary-key redirect when the column
  is the primary key and a non-empty \<open>pk_from\<close> was given; otherwise the entry of the field
  map for the column when there is one; otherwise the name of the column.
\<close>

theorem xml_tag_precedence:
  "(col_name = pk_name \<and> pk_from A = Some p \<and> p \<noteq> [] \<longrightarrow> xml_tag A pk_name col_name = p)
   \<and> (\<not> (col_name = pk_name \<and> (\<exists>p. pk_from A = Some p \<and> p \<noteq> [])) \<longrightarrow>
        xml_tag A pk_name col_name =
          (case field_map A col_name of None \<Rightarrow> col_name | Some t \<Rightarrow> t))"
  by (auto simp: xml_tag_def split: option.splits)

theorem xml_tag_precedence_witness:
  "xml_tag (args0\<lparr>field_map := [''id'' \<mapsto> ''a''], pk_from := Some ''codigo''\<rparr>)
     ''id'' ''id'' = ''codigo''
   \<and> xml_tag (args0\<lparr>field_map := [''nombre'' \<mapsto> ''descripcion''], pk_from := Some ''codigo''\<rparr>)
        ''id'' ''nombre'' = ''descripcion''
   \<and> xml_tag (args0\<lparr>field_map := [''nombre'' \<mapsto> ''descripcion'']\<rparr>) ''id'' ''id'' = ''id''"
  using
    xml_tag_precedence [of "''id''" "''id''"
      "args0\<lparr>field_map := [''id'' \<mapsto> ''a''], pk_from := Some ''codigo''\<rparr>" "''codigo''"]
    xml_tag_precedence [of "''nombre''" "''id''"
      "args0\<lparr>field_map := [''nombre'' \<mapsto> ''descripcion''], pk_from := Some ''codigo''\<rparr>"]
    xml_tag_precedence [of "''id''" "''id''"
      "args0\<lparr>field_map := [''nombre'' \<mapsto> ''descripcion'']\<rparr>"]
  by (simp add: args0_def)

text \<open>
  With the field map sending the primary key \<open>id\<close> to the tag \<open>a\<close> and the redirect
  \<open>codigo\<close>, the tag of \<open>id\<close> is not the one of the field map.
\<close>

theorem xml_tag_field_map_counterexample:
  "field_map (args0\<lparr>field_map := [''id'' \<mapsto> ''a''], pk_from := Some ''codigo''\<rparr>) ''id'' = Some ''a''
   \<and> xml_tag (args0\<lparr>field_map := [''id'' \<mapsto> ''a''], pk_from := Some ''codigo''\<rparr>)
        ''id'' ''id'' \<noteq> ''a''"
  by (simp add: xml_tag_def args0_def)

section \<open>A missing file\<close>

text \<open>
  C7, as the code has it: when the file does not exist the run prints the line that says
  so and nothing else, and the rows of the table are unchanged; no summary with the three
  counters is printed.
\<close>

theorem missing_file_aborts:
  "importar_datos E NoExiste A db = (db, [MsgNoEncontrado])
   \<and> (\<forall>i d e. MsgFinal i d e \<notin> set (snd (importar_datos E NoExiste A db)))"
  by (simp add: importar_datos_def)

theorem missing_file_aborts_witness:
  "importar_datos env0 NoExiste args0 [[(''id'', VInt 1), (''nombre'', VStr ''a'')]]
     = ([[(''id'', VInt 1), (''nombre'', VStr ''a'')]], [MsgNoEncontrado])"
  using missing_file_aborts [of env0 args0 "[[(''id'', VInt 1), (''nombre'', VStr ''a'')]]"]
  by simp

text \<open>On a missing file no summary with three zero counters is printed.\<close>

theorem missing_file_summary_counterexample:
  "MsgFinal 0 0 0 \<notin> set (snd (importar_datos env0 NoExiste args0 []))"
  by (simp add: importar_datos_def)

section \<open>The counters\<close>

lemma importar_loop_append:
  "importar_loop E A pk cols (xs @ ys) s =
     importar_loop E A pk cols ys (importar_loop E A pk cols xs s)"
  by (induction xs arbitrary: s) auto

lemma step_counters:
  "(insertados (importar_item E A pk cols s item) = insertados s + 1
      \<and> duplicados (importar_item E A pk cols s item) = duplicados s
      \<and> errores (importar_item E A pk cols s item) = errores s)
   \<or> (insertados (importar_item E A pk cols s item) = insertados s
      \<and> duplicados (importar_item E A pk cols s item) = duplicados s + 1
      \<and> errores (importar_item E A pk cols s item) = errores s)
   \<or> (insertados (importar_item E A pk cols s item) = insertados s
      \<and> duplicados (importar_item E A pk cols s item) = duplicados s
      \<and> errores (importar_item E A pk cols s item) = errores s + 1)"
  by (auto simp: importar_item_def try_body_def except_handler_def session_rollback_def
      session_commit_def session_add_def Let_def
      split: sum.splits option.splits)

lemma loop_counters_sum:
  "insertados (importar_loop E A pk cols items s) + duplicados (importar_loop E A pk cols items s)
     + errores (importar_loop E A pk cols items s)
   = insertados s + duplicados s + errores s + length items"
proof (induction items arbitrary: s)
  case Nil
  show ?case by simp
next
  case (Cons item items)
  from step_counters [of E A pk cols s item] Cons.IH [of "importar_item E A pk cols s item"]
  show ?case by auto
qed

lemma loop_counters_mono:
  "insertados s \<le> insertados (importar_loop E A pk cols items s)
   \<and> duplicados s \<le> duplicados (importar_loop E A pk cols items s)
   \<and> errores s \<le> errores (importar_loop E A pk cols items s)"
proof (induction items arbitrary: s)
  case Nil
  show ?case by simp
next
  case (Cons item items)
  from step_counters [of E A pk cols s item] Cons.IH [of "importar_item E A pk cols s item"]
  show ?case by auto
qed

text \<open>
  C9: every record increments exactly one of the three counters by one and leaves the
  other two as they are; hence no counter ever decreases from one point of the loop to a
  later one, and after the loop the three counters add up to the number of elements with
  the item tag under the root, which are the counters of the summary that is printed.
\<close>

theorem counters_invariant:
  "((insertados (importar_item E A pk cols s item) = insertados s + 1
      \<and> duplicados (importar_item E A pk cols s item) = duplicados s
      \<and> errores (importar_item E A pk cols s item) = errores s)
    \<or> (insertados (importar_item E A pk cols s item) = insertados s
      \<and> duplicados (importar_item E A pk cols s item) = duplicados s + 1
      \<and> errores (importar_item E A pk cols s item) = errores s)
    \<or> (insertados (importar_item E A pk cols s item) = insertados s
      \<and> duplicados (importar_item E A pk cols s item) = duplicados s
      \<and> errores (importar_item E A pk cols s item) = errores s + 1))
   \<and> insertados (importar_loop E A pk cols xs s)
        \<le> insertados (importar_loop E A pk cols (xs @ ys) s)
   \<and> duplicados (importar_loop E A pk cols xs s)
        \<le> duplicados (importar_loop E A pk cols (xs @ ys) s)
   \<and> errores (importar_loop E A pk cols xs s)
        \<le> errores (importar_loop E A pk cols (xs @ ys) s)
   \<and> insertados (importar_items E A root db) + duplicados (importar_items E A root db)
        + errores (importar_items E A root db)
      = length (findall root (item_tag A))
   \<and> (\<exists>i d e. snd (importar_datos E (Documento root) A db)
          = printed (importar_items E A root db) @ [MsgFinal i d e]
        \<and> i + d + e = length (findall root (item_tag A)))"
proof -
  have s: "insertados (importar_items E A root db) + duplicados (importar_items E A root db)
        + errores (importar_items E A root db) = length (findall root (item_tag A))"
    unfolding importar_items_def by (simp add: loop_counters_sum)
  then have d: "\<exists>i d e. snd (importar_datos E (Documento root) A db)
          = printed (importar_items E A root db) @ [MsgFinal i d e]
        \<and> i + d + e = length (findall root (item_tag A))"
    by (simp add: importar_datos_def Let_def)
  from step_counters [of E A pk cols s item]
    loop_counters_mono [of "importar_loop E A pk cols xs s" E A pk cols ys] s d
  show ?thesis
    unfolding importar_loop_append by blast
qed

theorem counters_invariant_witness:
  "insertados (importar_items env0 args0
      (documento [registro ''1'' ''Ana'', registro ''1'' ''Beto'', registro_sin_id ''Dora'']) []) = 1
   \<and> duplicados (importar_items env0 args0
      (documento [registro ''1'' ''Ana'', registro ''1'' ''Beto'', registro_sin_id ''Dora'']) []) = 1
   \<and> errores (importar_items env0 args0
      (documento [registro ''1'' ''Ana'', registro ''1'' ''Beto'', registro_sin_id ''Dora'']) []) = 1
   \<and> length (findall
      (documento [registro ''1'' ''Ana'', registro ''1'' ''Beto'', registro_sin_id ''Dora''])
      (item_tag args0)) = 3"
proof -
  let ?d = "documento [registro ''1'' ''Ana'', registro ''1'' ''Beto'', registro_sin_id ''Dora'']"
  have i: "insertados (importar_items env0 args0 ?d []) = 1" by code_simp
  have d: "duplicados (importar_items env0 args0 ?d []) = 1" by code_simp
  from counters_invariant [of env0 args0 "''id''" "[]"
      "\<lparr>committed = [], pending = [], insertados = 0, duplicados = 0, errores = 0,
        printed = []\<rparr>"
      "registro ''1'' ''Ana''" "[]" "[]" ?d "[]"]
  have "insertados (importar_items env0 args0 ?d []) + duplicados (importar_items env0 args0 ?d [])
      + errores (importar_items env0 args0 ?d []) = length (findall ?d (item_tag args0))"
    by blast
  moreover have "length (findall ?d (item_tag args0)) = 3" by code_simp
  ultimately show ?thesis using i d by simp
qed

section \<open>What one record does to the session\<close>

lemma step_effect:
  assumes "pending s = []"
  shows "pending (importar_item E A pk cols s item) = []
   \<and> ((es_duplicado E A pk cols s item
        \<and> committed (importar_item E A pk cols s item) = committed s
        \<and> insertados (importar_item E A pk cols s item) = insertados s
        \<and> duplicados (importar_item E A pk cols s item) = duplicados s + 1
        \<and> errores (importar_item E A pk cols s item) = errores s)
      \<or> (\<not> es_duplicado E A pk cols s item
        \<and> committed (importar_item E A pk cols s item) = committed s
        \<and> insertados (importar_item E A pk cols s item) = insertados s
        \<and> duplicados (importar_item E A pk cols s item) = duplicados s
        \<and> errores (importar_item E A pk cols s item) = errores s + 1)
      \<or> (\<not> es_duplicado E A pk cols s item
        \<and> (\<exists>data. build_data E A pk item cols [] = Inr data \<and> dict_get data pk \<noteq> VNone
              \<and> committed (importar_item E A pk cols s item) = committed s @ [data])
        \<and> insertados (importar_item E A pk cols s item) = insertados s + 1
        \<and> duplicados (importar_item E A pk cols s item) = duplicados s
        \<and> errores (importar_item E A pk cols s item) = errores s))"
  using assms
  by (auto simp: importar_item_def try_body_def except_handler_def session_rollback_def
      session_commit_def session_add_def es_duplicado_def Let_def
      split: sum.splits option.splits)

lemma step_cases [consumes 1, case_names dup err ins]:
  assumes "pending s = []"
  obtains
    (dup) "es_duplicado E A pk cols s item"
      "committed (importar_item E A pk cols s item) = committed s"
      "insertados (importar_item E A pk cols s item) = insertados s"
      "duplicados (importar_item E A pk cols s item) = duplicados s + 1"
      "errores (importar_item E A pk cols s item) = errores s"
  | (err) "\<not> es_duplicado E A pk cols s item"
      "committed (importar_item E A pk cols s item) = committed s"
      "insertados (importar_item E A pk cols s item) = insertados s"
      "duplicados (importar_item E A pk cols s item) = duplicados s"
      "errores (importar_item E A pk cols s item) = errores s + 1"
  | (ins) data where "\<not> es_duplicado E A pk cols s item"
      "build_data E A pk item cols [] = Inr data" "dict_get data pk \<noteq> VNone"
      "committed (importar_item E A pk cols s item) = committed s @ [data]"
      "insertados (importar_item E A pk cols s item) = insertados s + 1"
      "duplicados (importar_item E A pk cols s item) = duplicados s"
      "errores (importar_item E A pk cols s item) = errores s"
  using step_effect [OF assms, of E A pk cols item] by blast

lemma step_pending: "pending s = [] \<Longrightarrow> pending (importar_item E A pk cols s item) = []"
  using step_effect [of s E A pk cols item] by simp

lemma step_extends:
  "pending s = [] \<Longrightarrow> \<exists>ext. committed (importar_item E A pk cols s item) = committed s @ ext"
  using step_effect [of s E A pk cols item] by auto

lemma loop_pending: "pending s = [] \<Longrightarrow> pending (importar_loop E A pk cols items s) = []"
  by (induction items arbitrary: s) (auto simp: step_pending)

lemma loop_extends:
  "pending s = [] \<Longrightarrow> \<exists>ext. committed (importar_loop E A pk cols items s) = committed s @ ext"
proof (induction items arbitrary: s)
  case Nil
  show ?case by simp
next
  case (Cons item items)
  let ?s1 = "importar_item E A pk cols s item"
  from Cons.prems have p: "pending ?s1 = []" by (rule step_pending)
  from step_extends [OF Cons.prems, of E A pk cols item]
  obtain e1 where e1: "committed ?s1 = committed s @ e1" by blast
  from Cons.IH [OF p] obtain e2 where
    "committed (importar_loop E A pk cols items ?s1) = committed ?s1 @ e2" by blast
  with e1 show ?case by simp
qed

section \<open>Records that fail\<close>

lemma model_columns_distinct: "distinct (map fst (model_columns m))"
proof -
  have "distinct (map fst al) \<Longrightarrow>
      distinct (map fst (fold (\<lambda>(n, t). AList.update n t) xs al))" for xs al
    by (induction xs arbitrary: al) (auto simp: distinct_update)
  from this [of "[]" "columns m"] show ?thesis by (simp add: model_columns_def)
qed

lemma build_data_other:
  "build_data E A pk item cols data = Inr data' \<Longrightarrow> c \<notin> fst ` set cols
     \<Longrightarrow> map_of data' c = map_of data c"
proof (induction cols arbitrary: data)
  case Nil
  then show ?case by simp
next
  case (Cons x cols)
  obtain c0 ct0 where x: "x = (c0, ct0)" by (cases x)
  from Cons.prems x obtain v where
    v: "build_data E A pk item cols (AList.update c0 v data) = Inr data'"
    by (auto split: sum.splits)
  from Cons.prems x have "c \<noteq> c0" "c \<notin> fst ` set cols" by auto
  with Cons.IH [OF v] show ?case by (simp add: update_conv')
qed

lemma build_data_value:
  "build_data E A pk item cols data = Inr data' \<Longrightarrow> distinct (map fst cols)
     \<Longrightarrow> (c, ct) \<in> set cols
     \<Longrightarrow> \<exists>v. col_value E A pk item c ct = Inr v \<and> map_of data' c = Some v"
proof (induction cols arbitrary: data)
  case Nil
  then show ?case by simp
next
  case (Cons x cols)
  obtain c0 ct0 where x: "x = (c0, ct0)" by (cases x)
  from Cons.prems x obtain v where
    v: "col_value E A pk item c0 ct0 = Inr v"
      "build_data E A pk item cols (AList.update c0 v data) = Inr data'"
    by (auto split: sum.splits)
  from Cons.prems x have d: "distinct (map fst cols)" "c0 \<notin> fst ` set cols" by auto
  show ?case
  proof (cases "(c, ct) = (c0, ct0)")
    case True
    with build_data_other [OF v(2) d(2)] v(1) show ?thesis by (simp add: update_conv')
  next
    case False
    with Cons.prems x have "(c, ct) \<in> set cols" by auto
    from Cons.IH [OF v(2) d(1) this] show ?thesis .
  qed
qed

lemma build_data_fails:
  "(c, ct) \<in> set cols \<Longrightarrow> col_value E A pk item c ct = Inl e
     \<Longrightarrow> \<exists>e'. build_data E A pk item cols data = Inl e'"
proof (induction cols arbitrary: data)
  case Nil
  then show ?case by simp
next
  case (Cons x cols)
  obtain c0 ct0 where x: "x = (c0, ct0)" by (cases x)
  show ?case
  proof (cases "col_value E A pk item c0 ct0")
    case (Inl e0)
    with x show ?thesis by simp
  next
    case (Inr v)
    with Cons.prems x have "(c, ct) \<in> set cols" by auto
    from Cons.IH [OF this Cons.prems(2)] Inr x show ?thesis by simp
  qed
qed

lemma col_value_absent:
  "transforms A c = None \<Longrightarrow> get_text (find_elem item (xml_tag A pk c)) = None
     \<Longrightarrow> col_value E A pk item c ct = Inr VNone"
  by (simp add: col_value_def)

lemma null_pk_step:
  assumes "build_data E A pk item cols [] = Inr data" and "dict_get data pk = VNone"
  shows "importar_item E A pk cols s item
     = s\<lparr>pending := [], printed := printed s @ [MsgErrorValor], errores := errores s + 1\<rparr>"
  using assms
  by (simp add: importar_item_def try_body_def except_handler_def session_rollback_def)

lemma build_fails_step:
  assumes "build_data E A pk item cols [] = Inl e"
  shows "importar_item E A pk cols s item
     = s\<lparr>pending := [],
         printed := printed s @
           [case e of ValueError \<Rightarrow> MsgErrorValor
              | IntegrityError \<Rightarrow> MsgErrorIntegridad
              | OtherException \<Rightarrow> MsgErrorItem],
         errores := errores s + 1\<rparr>"
  using assms
  by (simp add: importar_item_def try_body_def except_handler_def session_rollback_def)

lemma raise_step:
  assumes "try_body E A pk cols s item = Inl (e, s')"
  shows "committed (importar_item E A pk cols s item) = committed s
   \<and> pending (importar_item E A pk cols s item) = []
   \<and> errores (importar_item E A pk cols s item) = errores s + 1
   \<and> insertados (importar_item E A pk cols s item) = insertados s
   \<and> duplicados (importar_item E A pk cols s item) = duplicados s
   \<and> printed (importar_item E A pk cols s item) =
       printed s @ [case e of ValueError \<Rightarrow> MsgErrorValor
                     | IntegrityError \<Rightarrow> MsgErrorIntegridad
                     | OtherException \<Rightarrow> MsgErrorItem]"
  using assms
  by (auto simp: importar_item_def try_body_def except_handler_def session_rollback_def
      session_add_def Let_def split: sum.splits if_splits)

text \<open>
  C2, as the code has it: when the sub-element of the primary key is absent or has no
  text, and no transform is registered for the primary key, its value is \<open>None\<close>.  A
  record whose primary key has the value \<open>None\<close> is never stored: the session is rolled
  back, the count of errors grows by one, nothing else changes but one line printed, and
  the loop goes on with the next record.  The line is the one of a value error when the
  values of all the columns are built; when a column raises, it is the line of the class
  of that exception.
\<close>

theorem null_primary_key:
  "(transforms A pk = None \<and> get_text (find_elem item (xml_tag A pk pk)) = None \<longrightarrow>
      col_value E A pk item pk ct = Inr VNone)
   \<and> (distinct (map fst cols) \<and> (pk, ct) \<in> set cols
        \<and> col_value E A pk item pk ct = Inr VNone \<longrightarrow>
      importar_item E A pk cols s item
        = s\<lparr>pending := [],
            printed := printed s @
              [case build_data E A pk item cols [] of
                 Inr data \<Rightarrow> MsgErrorValor
               | Inl ValueError \<Rightarrow> MsgErrorValor
               | Inl IntegrityError \<Rightarrow> MsgErrorIntegridad
               | Inl OtherException \<Rightarrow> MsgErrorItem],
            errores := errores s + 1\<rparr>
      \<and> importar_loop E A pk cols (item # items) s
        = importar_loop E A pk cols items (importar_item E A pk cols s item))
   \<and> (build_data E A pk item cols [] = Inr data \<and> dict_get data pk = VNone \<longrightarrow>
      importar_item E A pk cols s item
        = s\<lparr>pending := [], printed := printed s @ [MsgErrorValor],
            errores := errores s + 1\<rparr>)"
proof (intro conjI impI)
  assume "build_data E A pk item cols [] = Inr data \<and> dict_get data pk = VNone"
  then show "importar_item E A pk cols s item
        = s\<lparr>pending := [], printed := printed s @ [MsgErrorValor],
            errores := errores s + 1\<rparr>"
    by (simp add: null_pk_step)
next
  assume "transforms A pk = None \<and> get_text (find_elem item (xml_tag A pk pk)) = None"
  then show "col_value E A pk item pk ct = Inr VNone" by (simp add: col_value_absent)
next
  assume h: "distinct (map fst cols) \<and> (pk, ct) \<in> set cols
        \<and> col_value E A pk item pk ct = Inr VNone"
  show "importar_item E A pk cols s item
        = s\<lparr>pending := [],
            printed := printed s @
              [case build_data E A pk item cols [] of
                 Inr data \<Rightarrow> MsgErrorValor
               | Inl ValueError \<Rightarrow> MsgErrorValor
               | Inl IntegrityError \<Rightarrow> MsgErrorIntegridad
               | Inl OtherException \<Rightarrow> MsgErrorItem],
            errores := errores s + 1\<rparr>"
  proof (cases "build_data E A pk item cols []")
    case (Inl e)
    from build_fails_step [OF Inl, of s] Inl show ?thesis by (cases e) simp_all
  next
    case (Inr data)
    from build_data_value [OF Inr, of pk ct] h have "dict_get data pk = VNone"
      by (auto simp: dict_get_def)
    from null_pk_step [OF Inr this, of s] Inr show ?thesis by simp
  qed
next
  show "importar_loop E A pk cols (item # items) s
        = importar_loop E A pk cols items (importar_item E A pk cols s item)"
    by simp
qed

theorem null_primary_key_witness:
  "col_value env0 args0 ''id'' (registro_sin_id ''Dora'') ''id'' Integer = Inr VNone
   \<and> importar_item env0 args0 ''id'' (model_columns modelo0)
      \<lparr>committed = [], pending = [], insertados = 0, duplicados = 0, errores = 0,
       printed = [MsgImportando]\<rparr> (registro_sin_id ''Dora'')
     = \<lparr>committed = [], pending = [], insertados = 0, duplicados = 0, errores = 1,
        printed = [MsgImportando, MsgErrorValor]\<rparr>
   \<and> importar_item env0 args1 ''id'' (model_columns modelo0)
      \<lparr>committed = [], pending = [], insertados = 0, duplicados = 0, errores = 0,
       printed = [MsgImportando]\<rparr> (registro_sin_id ''Dora'')
     = \<lparr>committed = [], pending = [], insertados = 0, duplicados = 0, errores = 1,
        printed = [MsgImportando, MsgErrorItem]\<rparr>"
proof -
  let ?s = "\<lparr>committed = [], pending = [], insertados = 0, duplicados = 0, errores = 0,
       printed = [MsgImportando]\<rparr> :: int state"
  have t: "get_text (find_elem (registro_sin_id ''Dora'') (xml_tag args0 ''id'' ''id'')) = None"
    "get_text (find_elem (registro_sin_id ''Dora'') (xml_tag args1 ''id'' ''id'')) = None"
    by code_simp+
  have f: "transforms args0 ''id'' = None" "transforms args1 ''id'' = None"
    by (simp_all add: args0_def args1_def)
  have c: "(''id'', Integer) \<in> set (model_columns modelo0)" by code_simp
  have b0: "build_data env0 args0 ''id'' (registro_sin_id ''Dora'') (model_columns modelo0) []
     = Inr [(''id'', VNone), (''nombre'', VStr ''Dora'')]" by code_simp
  have b1: "build_data env0 args1 ''id'' (registro_sin_id ''Dora'') (model_columns modelo0) []
     = Inl OtherException" by code_simp
  from null_primary_key [of args0 "''id''" "registro_sin_id ''Dora''" env0 Integer
      "model_columns modelo0" ?s "[]"]
    null_primary_key [of args1 "''id''" "registro_sin_id ''Dora''" env0 Integer
      "model_columns modelo0" ?s "[]"]
    t f c b0 b1 model_columns_distinct [of modelo0]
  show ?thesis by simp
qed

text \<open>
  A record without \<open>id\<close>, with a transform on \<open>nombre\<close> that raises an exception that is
  not a value error: the primary key resolves to \<open>None\<close>, and the line printed is the one
  of the last handler, not the one of a value error.
\<close>

theorem null_primary_key_other_counterexample:
  "get_text (find_elem (registro_sin_id ''Dora'') (xml_tag args1 ''id'' ''id'')) = None
   \<and> col_value env0 args1 ''id'' (registro_sin_id ''Dora'') ''id'' Integer = Inr VNone
   \<and> printed (importar_item env0 args1 ''id'' (model_columns modelo0)
        \<lparr>committed = [], pending = [], insertados = 0, duplicados = 0, errores = 0,
         printed = []\<rparr> (registro_sin_id ''Dora'')) = [MsgErrorItem]"
  by code_simp

text \<open>
  C6: when the body of the loop raises on a record, whatever the exception, the rows of
  the table are those before the record, the session has no pending object, the count of
  errors grows by one and the other counters stay, the line of the class of the exception
  is printed, and the loop goes on with the records after it, the records before it
  staying committed.  A text that \<open>int\<close> or \<open>float\<close> refuses for an integer or float
  column without a transform makes the body raise.
\<close>

theorem failures_isolated:
  "(try_body E A pk cols (importar_loop E A pk cols before s) item = Inl (e, s') \<longrightarrow>
      (let sb = importar_loop E A pk cols before s;
           sa = importar_item E A pk cols sb item
       in committed sa = committed sb \<and> pending sa = []
          \<and> errores sa = errores sb + 1
          \<and> insertados sa = insertados sb \<and> duplicados sa = duplicados sb
          \<and> printed sa = printed sb @
               [case e of ValueError \<Rightarrow> MsgErrorValor
                  | IntegrityError \<Rightarrow> MsgErrorIntegridad
                  | OtherException \<Rightarrow> MsgErrorItem]
          \<and> importar_loop E A pk cols (before @ item # after) s
               = importar_loop E A pk cols after sa))
   \<and> ((c, ct) \<in> set cols \<and> transforms A c = None
        \<and> get_text (find_elem item (xml_tag A pk c)) = Some v
        \<and> (ct \<in> {Integer, BigInteger} \<and> py_int E v = None \<or> ct = Float \<and> py_float E v = None)
      \<longrightarrow> (\<exists>e. try_body E A pk cols s item = Inl (e, s)))"
proof (intro conjI impI)
  assume r: "try_body E A pk cols (importar_loop E A pk cols before s) item = Inl (e, s')"
  from raise_step [OF r] show "let sb = importar_loop E A pk cols before s;
           sa = importar_item E A pk cols sb item
       in committed sa = committed sb \<and> pending sa = []
          \<and> errores sa = errores sb + 1
          \<and> insertados sa = insertados sb \<and> duplicados sa = duplicados sb
          \<and> printed sa = printed sb @
               [case e of ValueError \<Rightarrow> MsgErrorValor
                  | IntegrityError \<Rightarrow> MsgErrorIntegridad
                  | OtherException \<Rightarrow> MsgErrorItem]
          \<and> importar_loop E A pk cols (before @ item # after) s
               = importar_loop E A pk cols after sa"
    by (simp add: Let_def importar_loop_append)
next
  assume h: "(c, ct) \<in> set cols \<and> transforms A c = None
        \<and> get_text (find_elem item (xml_tag A pk c)) = Some v
        \<and> (ct \<in> {Integer, BigInteger} \<and> py_int E v = None \<or> ct = Float \<and> py_float E v = None)"
  then have "col_value E A pk item c ct = Inl ValueError"
    by (auto simp: col_value_def)
  with h build_data_fails [of c ct cols E A pk item ValueError "[]"]
  obtain e' where "build_data E A pk item cols [] = Inl e'" by blast
  then show "\<exists>e. try_body E A pk cols s item = Inl (e, s)"
    by (simp add: try_body_def)
qed

theorem failures_isolated_witness:
  "committed (importar_loop env0 args0 ''id'' (model_columns modelo0)
      [registro ''1'' ''Ana'', registro ''x7'' ''Beto'', registro ''2'' ''Carla'']
      \<lparr>committed = [], pending = [], insertados = 0, duplicados = 0, errores = 0,
       printed = []\<rparr>)
     = [[(''id'', VInt 1), (''nombre'', VStr ''Ana'')], [(''id'', VInt 2), (''nombre'', VStr ''Carla'')]]
   \<and> errores (importar_item env0 args0 ''id'' (model_columns modelo0)
       (importar_loop env0 args0 ''id'' (model_columns modelo0) [registro ''1'' ''Ana'']
          \<lparr>committed = [], pending = [], insertados = 0, duplicados = 0, errores = 0,
           printed = []\<rparr>)
       (registro ''x7'' ''Beto'')) = 1
   \<and> committed (importar_item env0 args0 ''id'' (model_columns modelo0)
       (importar_loop env0 args0 ''id'' (model_columns modelo0) [registro ''1'' ''Ana'']
          \<lparr>committed = [], pending = [], insertados = 0, duplicados = 0, errores = 0,
           printed = []\<rparr>)
       (registro ''x7'' ''Beto'')) = [[(''id'', VInt 1), (''nombre'', VStr ''Ana'')]]
   \<and> get_text (find_elem (registro ''x7'' ''Beto'') (xml_tag args0 ''id'' ''id'')) = Some ''x7''
   \<and> py_int env0 ''x7'' = None
   \<and> (\<exists>e. try_body env0 args0 ''id'' (model_columns modelo0)
          \<lparr>committed = [], pending = [], insertados = 0, duplicados = 0, errores = 0,
           printed = []\<rparr> (registro ''x7'' ''Beto'')
        = Inl (e, \<lparr>committed = [], pending = [], insertados = 0, duplicados = 0, errores = 0,
           printed = []\<rparr>))"
proof -
  let ?s = "\<lparr>committed = [], pending = [], insertados = 0, duplicados = 0, errores = 0,
       printed = []\<rparr> :: int state"
  let ?cols = "model_columns modelo0"
  let ?sb = "importar_loop env0 args0 ''id'' ?cols [registro ''1'' ''Ana''] ?s"
  have sb: "?sb = \<lparr>committed = [[(''id'', VInt 1), (''nombre'', VStr ''Ana'')]], pending = [],
      insertados = 1, duplicados = 0, errores = 0, printed = []\<rparr>" by code_simp
  have r: "try_body env0 args0 ''id'' ?cols ?sb (registro ''x7'' ''Beto'') = Inl (ValueError, ?sb)"
    unfolding sb by code_simp
  have l: "committed (importar_loop env0 args0 ''id'' ?cols
      [registro ''1'' ''Ana'', registro ''x7'' ''Beto'', registro ''2'' ''Carla''] ?s)
     = [[(''id'', VInt 1), (''nombre'', VStr ''Ana'')], [(''id'', VInt 2), (''nombre'', VStr ''Carla'')]]"
    by code_simp
  have c: "(''id'', Integer) \<in> set ?cols" by code_simp
  have f: "transforms args0 ''id'' = None" by (simp add: args0_def)
  have t: "get_text (find_elem (registro ''x7'' ''Beto'') (xml_tag args0 ''id'' ''id'')) = Some ''x7''"
    by code_simp
  have n: "py_int env0 ''x7'' = None" by code_simp
  from failures_isolated [of env0 args0 "''id''" ?cols "[registro ''1'' ''Ana'']" ?s
      "registro ''x7'' ''Beto''" ValueError ?sb "[registro ''2'' ''Carla'']"
      "''id''" Integer "''x7''"] r l sb c f t n
  show ?thesis by (simp add: Let_def)
qed

section \<open>Duplicates\<close>

lemma find_append_Some: "List.find P xs = Some r \<Longrightarrow> List.find P (xs @ ys) = Some r"
  by (induction xs) (auto split: if_splits)

lemma find_as_filter:
  "List.find P xs = (case filter P xs of [] \<Rightarrow> None | r # _ \<Rightarrow> Some r)"
  by (induction xs) auto

lemma session_get_filter:
  "session_get s pk k = (case filter (\<lambda>r. map_of r pk = Some k) (committed s) of
      [] \<Rightarrow> None | r # _ \<Rightarrow> Some r)"
  by (simp add: session_get_def find_as_filter)

lemma es_duplicado_extends:
  "committed s' = committed s @ ext \<Longrightarrow> es_duplicado E A pk cols s item
     \<Longrightarrow> es_duplicado E A pk cols s' item"
  by (auto simp: es_duplicado_def session_get_def find_append_Some split: sum.splits)

lemma es_duplicado_cong:
  "committed s' = committed s \<Longrightarrow> es_duplicado E A pk cols s' item = es_duplicado E A pk cols s item"
  by (simp add: es_duplicado_def session_get_def split: sum.splits)

lemma dict_get_Some: "dict_get data k \<noteq> VNone \<Longrightarrow> map_of data k = Some (dict_get data k)"
  by (auto simp: dict_get_def split: option.splits)

lemma es_duplicado_inserted:
  assumes "build_data E A pk item cols [] = Inr data" and "dict_get data pk \<noteq> VNone"
    and "committed s' = committed s @ [data]"
  shows "es_duplicado E A pk cols s' item"
proof -
  from assms(2) have "map_of data pk = Some (dict_get data pk)" by (rule dict_get_Some)
  then have "\<exists>x. x \<in> set (committed s') \<and> map_of x pk = Some (dict_get data pk)"
    using assms(3) by auto
  then have "List.find (\<lambda>r. map_of r pk = Some (dict_get data pk)) (committed s') \<noteq> None"
    by (simp only: find_None_iff not_not)
  with assms(1,2) show ?thesis by (simp add: es_duplicado_def session_get_def)
qed

lemma filter_length_mono:
  "(\<And>x. x \<in> set xs \<Longrightarrow> P x \<Longrightarrow> Q x) \<Longrightarrow> length (filter P xs) \<le> length (filter Q xs)"
  by (induction xs) auto

lemma key_rows_step:
  assumes "pending s = []" and "session_get s pk k \<noteq> None"
  shows "filter (\<lambda>r. map_of r pk = Some k) (committed (importar_item E A pk cols s item))
     = filter (\<lambda>r. map_of r pk = Some k) (committed s)"
  using assms(1)
proof (cases rule: step_cases [where E = E and A = A and pk = pk and cols = cols and item = item])
  case dup
  then show ?thesis by simp
next
  case err
  then show ?thesis by simp
next
  case (ins data)
  from ins(1,2,3) have n: "session_get s pk (dict_get data pk) = None"
    by (simp add: es_duplicado_def)
  have "map_of data pk \<noteq> Some k"
  proof
    assume "map_of data pk = Some k"
    then have "dict_get data pk = k" by (simp add: dict_get_def)
    with n assms(2) show False by simp
  qed
  with ins(4) show ?thesis by simp
qed

lemma key_rows_loop:
  assumes "pending s = []" and "session_get s pk k \<noteq> None"
  shows "filter (\<lambda>r. map_of r pk = Some k) (committed (importar_loop E A pk cols items s))
     = filter (\<lambda>r. map_of r pk = Some k) (committed s)"
  using assms
proof (induction items arbitrary: s)
  case Nil
  show ?case by simp
next
  case (Cons item items)
  let ?s1 = "importar_item E A pk cols s item"
  from Cons.prems(1) have p: "pending ?s1 = []" by (rule step_pending)
  have f: "filter (\<lambda>r. map_of r pk = Some k) (committed ?s1)
     = filter (\<lambda>r. map_of r pk = Some k) (committed s)"
    using Cons.prems by (rule key_rows_step)
  with Cons.prems(2) have "session_get ?s1 pk k \<noteq> None" by (simp add: session_get_filter)
  from Cons.IH [OF p this] f show ?case by simp
qed

lemma duplicate_step:
  assumes "build_data E A pk item cols [] = Inr data" and "dict_get data pk \<noteq> VNone"
    and "session_get s pk (dict_get data pk) \<noteq> None"
  shows "importar_item E A pk cols s item
     = s\<lparr>printed := printed s @ [MsgDuplicado], duplicados := duplicados s + 1\<rparr>"
  using assms by (simp add: importar_item_def try_body_def)

text \<open>
  C10, as the code has it: when a record of a file with a primary key that is not
  \<open>None\<close> is inserted, a later record of the file whose values are all built and whose
  primary key is the same is counted as a duplicate, not as an error, and is not stored;
  a later record of which a column raises is counted as an error, whatever its primary
  key.  In both cases, at the end of the run the table has one row with that key, and it
  holds the values of the first record.
\<close>

theorem duplicate_within_file:
  assumes "pending s = []"
    and "build_data E A pk a cols [] = Inr da"
    and "dict_get da pk = k" and "k \<noteq> VNone"
    and "insertados (importar_item E A pk cols (importar_loop E A pk cols xs s) a)
           = insertados (importar_loop E A pk cols xs s) + 1"
  shows "let s2 = importar_loop E A pk cols (xs @ a # ys) s;
             s3 = importar_item E A pk cols s2 b;
             s4 = importar_loop E A pk cols (xs @ a # ys @ b # zs) s
         in (\<forall>db. build_data E A pk b cols [] = Inr db \<and> dict_get db pk = k \<longrightarrow>
               s3 = s2\<lparr>printed := printed s2 @ [MsgDuplicado],
                        duplicados := duplicados s2 + 1\<rparr>)
            \<and> (\<forall>e. build_data E A pk b cols [] = Inl e \<longrightarrow>
               s3 = s2\<lparr>pending := [],
                        printed := printed s2 @
                          [case e of ValueError \<Rightarrow> MsgErrorValor
                             | IntegrityError \<Rightarrow> MsgErrorIntegridad
                             | OtherException \<Rightarrow> MsgErrorItem],
                        errores := errores s2 + 1\<rparr>)
            \<and> session_get s4 pk k = Some da
            \<and> filter (\<lambda>r. map_of r pk = Some k) (committed s4) = [da]"
proof -
  let ?K = "\<lambda>r. map_of r pk = Some k"
  let ?s1 = "importar_loop E A pk cols xs s"
  let ?sa = "importar_item E A pk cols ?s1 a"
  let ?s2 = "importar_loop E A pk cols ys ?sa"
  let ?s3 = "importar_item E A pk cols ?s2 b"
  let ?s4 = "importar_loop E A pk cols (ys @ b # zs) ?sa"
  from assms(1) have p1: "pending ?s1 = []" by (rule loop_pending)
  then have pa: "pending ?sa = []" by (rule step_pending)
  from assms(3,4) have ka: "map_of da pk = Some k" using dict_get_Some [of da pk] by simp
  have a: "filter ?K (committed ?sa) = [da]"
    using p1
  proof (cases rule: step_cases [where E = E and A = A and pk = pk and cols = cols and item = a])
    case dup
    with assms(5) show ?thesis by simp
  next
    case err
    with assms(5) show ?thesis by simp
  next
    case (ins data)
    with assms(2) have d: "data = da" by simp
    from ins(1) assms(2,3,4) have "session_get ?s1 pk k = None"
      by (simp add: es_duplicado_def)
    then have "filter ?K (committed ?s1) = []"
      by (simp add: session_get_filter split: list.splits)
    with ins(4) d ka show ?thesis by simp
  qed
  then have ga: "session_get ?sa pk k \<noteq> None" by (simp add: session_get_filter)
  have f2: "filter ?K (committed ?s2) = [da]"
    using key_rows_loop [OF pa ga, of E A cols ys] a by simp
  then have g2: "session_get ?s2 pk k \<noteq> None" by (simp add: session_get_filter)
  have dupl: "?s3 = ?s2\<lparr>printed := printed ?s2 @ [MsgDuplicado],
      duplicados := duplicados ?s2 + 1\<rparr>"
    if "build_data E A pk b cols [] = Inr db \<and> dict_get db pk = k" for db
    using duplicate_step [of E A pk b cols db ?s2] that assms(4) g2 by simp
  have fail: "?s3 = ?s2\<lparr>pending := [],
      printed := printed ?s2 @
        [case e of ValueError \<Rightarrow> MsgErrorValor
           | IntegrityError \<Rightarrow> MsgErrorIntegridad
           | OtherException \<Rightarrow> MsgErrorItem],
      errores := errores ?s2 + 1\<rparr>"
    if "build_data E A pk b cols [] = Inl e" for e
    using that by (rule build_fails_step)
  have f4: "filter ?K (committed ?s4) = [da]"
    using key_rows_loop [OF pa ga, of E A cols "ys @ b # zs"] a by simp
  then have g4: "session_get ?s4 pk k = Some da" by (simp add: session_get_filter)
  have l2: "importar_loop E A pk cols (xs @ a # ys) s = ?s2"
    by (simp add: importar_loop_append)
  have l4: "importar_loop E A pk cols (xs @ a # ys @ b # zs) s = ?s4"
    by (simp add: importar_loop_append)
  from dupl fail f4 g4 show ?thesis
    unfolding Let_def l2 l4 by blast
qed

theorem duplicate_within_file_witness:
  "importar_item env0 args2 ''id'' (model_columns modelo2)
      \<lparr>committed = [[(''id'', VInt 1), (''edad'', VInt 5)]], pending = [], insertados = 1,
       duplicados = 0, errores = 0, printed = []\<rparr> (registro_edad ''1'' ''7'')
     = \<lparr>committed = [[(''id'', VInt 1), (''edad'', VInt 5)]], pending = [], insertados = 1,
        duplicados = 1, errores = 0, printed = [MsgDuplicado]\<rparr>
   \<and> importar_item env0 args2 ''id'' (model_columns modelo2)
      \<lparr>committed = [[(''id'', VInt 1), (''edad'', VInt 5)]], pending = [], insertados = 1,
       duplicados = 0, errores = 0, printed = []\<rparr> (registro_edad ''1'' ''x'')
     = \<lparr>committed = [[(''id'', VInt 1), (''edad'', VInt 5)]], pending = [], insertados = 1,
        duplicados = 0, errores = 1, printed = [MsgErrorValor]\<rparr>
   \<and> session_get (importar_loop env0 args2 ''id'' (model_columns modelo2)
        [registro_edad ''1'' ''5'', registro_edad ''1'' ''x'', registro_edad ''1'' ''7'']
        \<lparr>committed = [], pending = [], insertados = 0, duplicados = 0, errores = 0,
         printed = []\<rparr>) ''id'' (VInt 1)
     = Some [(''id'', VInt 1), (''edad'', VInt 5)]"
proof -
  let ?s = "\<lparr>committed = [], pending = [], insertados = 0, duplicados = 0, errores = 0,
                printed = []\<rparr> :: int state"
  let ?cols = "model_columns modelo2"
  let ?a = "registro_edad ''1'' ''5''"
  let ?da = "[(''id'', VInt 1), (''edad'', VInt 5)] :: int row"
  have 1: "pending ?s = []" by simp
  have 2: "build_data env0 args2 ''id'' ?a ?cols [] = Inr ?da" by code_simp
  have 3: "dict_get ?da ''id'' = VInt 1" by code_simp
  have 4: "(VInt 1 :: int pyval) \<noteq> VNone" by simp
  have 5: "insertados (importar_item env0 args2 ''id'' ?cols
       (importar_loop env0 args2 ''id'' ?cols [] ?s) ?a)
     = insertados (importar_loop env0 args2 ''id'' ?cols [] ?s) + 1"
    by code_simp
  have s2: "importar_loop env0 args2 ''id'' ?cols [?a] ?s
     = \<lparr>committed = [?da], pending = [], insertados = 1, duplicados = 0, errores = 0,
        printed = []\<rparr>" by code_simp
  have b7: "build_data env0 args2 ''id'' (registro_edad ''1'' ''7'') ?cols []
     = Inr [(''id'', VInt 1), (''edad'', VInt 7)]" by code_simp
  have k7: "dict_get [(''id'', VInt 1), (''edad'', VInt 7)] ''id'' = (VInt 1 :: int pyval)"
    by code_simp
  have bx: "build_data env0 args2 ''id'' (registro_edad ''1'' ''x'') ?cols [] = Inl ValueError"
    by code_simp
  from duplicate_within_file [OF 1 2 3 4 5, of "[]" "registro_edad ''1'' ''7''" "[]"]
    duplicate_within_file [OF 1 2 3 4 5, of "[]" "registro_edad ''1'' ''x''"
      "[registro_edad ''1'' ''7'']"]
    s2 b7 k7 bx
  show ?thesis by (simp add: Let_def del: importar_loop.simps)
qed

text \<open>
  Two records of primary key 1, the second with an \<open>edad\<close> that is no integer: the first
  is inserted, and the second is counted as an error, not as a duplicate.
\<close>

theorem duplicate_malformed_counterexample:
  "col_value env0 args2 ''id'' (registro_edad ''1'' ''5'') ''id'' Integer = Inr (VInt 1)
   \<and> col_value env0 args2 ''id'' (registro_edad ''1'' ''x'') ''id'' Integer = Inr (VInt 1)
   \<and> insertados (importar_items env0 args2
        (documento [registro_edad ''1'' ''5'']) []) = 1
   \<and> duplicados (importar_items env0 args2
        (documento [registro_edad ''1'' ''5'', registro_edad ''1'' ''x'']) []) = 0
   \<and> errores (importar_items env0 args2
        (documento [registro_edad ''1'' ''5'', registro_edad ''1'' ''x'']) []) = 1"
  by code_simp

section \<open>Importing a file twice\<close>

lemma loop_known:
  assumes "pending s = []"
  shows "insertados (importar_loop E A pk cols items s) + duplicados (importar_loop E A pk cols items s)
     \<le> insertados s + duplicados s
        + length (filter (es_duplicado E A pk cols (importar_loop E A pk cols items s)) items)"
  using assms
proof (induction items arbitrary: s)
  case Nil
  show ?case by simp
next
  case (Cons item items)
  let ?s1 = "importar_item E A pk cols s item"
  let ?s' = "importar_loop E A pk cols items ?s1"
  from Cons.prems have p: "pending ?s1 = []" by (rule step_pending)
  from loop_extends [OF p, of E A pk cols items]
  obtain ext where ext: "committed ?s' = committed ?s1 @ ext" by blast
  have ih: "insertados ?s' + duplicados ?s'
     \<le> insertados ?s1 + duplicados ?s1 + length (filter (es_duplicado E A pk cols ?s') items)"
    by (rule Cons.IH [OF p])
  have "insertados ?s1 + duplicados ?s1
     \<le> insertados s + duplicados s + (if es_duplicado E A pk cols ?s' item then 1 else 0)"
    using Cons.prems
  proof (cases rule: step_cases [where E = E and A = A and pk = pk and cols = cols and item = item])
    case dup
    then have "es_duplicado E A pk cols ?s1 item"
      using es_duplicado_cong [of ?s1 s E A pk cols item] by simp
    with ext have "es_duplicado E A pk cols ?s' item" by (rule es_duplicado_extends)
    with dup show ?thesis by simp
  next
    case err
    then show ?thesis by simp
  next
    case (ins data)
    then have "es_duplicado E A pk cols ?s1 item"
      using es_duplicado_inserted [of E A pk item cols data ?s1 s] by simp
    with ext have "es_duplicado E A pk cols ?s' item" by (rule es_duplicado_extends)
    with ins show ?thesis by simp
  qed
  with ih show ?case by (auto split: if_splits)
qed

lemma loop_skips_known:
  assumes "pending t = []"
  shows "duplicados t + length (filter (es_duplicado E A pk cols t) items)
     \<le> duplicados (importar_loop E A pk cols items t)"
  using assms
proof (induction items arbitrary: t)
  case Nil
  show ?case by simp
next
  case (Cons item items)
  let ?t1 = "importar_item E A pk cols t item"
  from Cons.prems have p: "pending ?t1 = []" by (rule step_pending)
  from step_extends [OF Cons.prems, of E A pk cols item]
  obtain ext where ext: "committed ?t1 = committed t @ ext" by blast
  have m: "length (filter (es_duplicado E A pk cols t) items)
     \<le> length (filter (es_duplicado E A pk cols ?t1) items)"
    by (rule filter_length_mono) (rule es_duplicado_extends [OF ext])
  have "duplicados t + (if es_duplicado E A pk cols t item then 1 else 0) \<le> duplicados ?t1"
    using Cons.prems
    by (cases rule: step_cases [where E = E and A = A and pk = pk and cols = cols and item = item])
      simp_all
  with m Cons.IH [OF p] show ?case by (simp split: if_splits)
qed

lemma find_append_None: "List.find P xs = None \<Longrightarrow> List.find P (xs @ ys) = List.find P ys"
  by (induction xs) (auto split: if_splits)

lemma not_insertable_step:
  assumes "pending s = []"
  shows "not_insertable E A pk cols (committed (importar_item E A pk cols s item)) item"
proof (cases "build_data E A pk item cols []")
  case (Inl e)
  then show ?thesis by (simp add: not_insertable_def)
next
  case (Inr data)
  show ?thesis
  proof (cases "dict_get data pk = VNone")
    case True
    with Inr show ?thesis by (simp add: not_insertable_def)
  next
    case False
    then have m: "map_of data pk = Some (dict_get data pk)" by (rule dict_get_Some)
    show ?thesis
      using assms Inr False m
      by (auto simp: not_insertable_def importar_item_def try_body_def except_handler_def
          session_rollback_def session_commit_def session_add_def session_get_def Let_def
          find_append_Some find_append_None
          split: sum.splits option.splits)
  qed
qed

lemma not_insertable_extends:
  assumes "stable_constraints E" and "not_insertable E A pk cols db item"
  shows "not_insertable E A pk cols (db @ ext) item"
proof (cases "build_data E A pk item cols []")
  case (Inl e)
  then show ?thesis by (simp add: not_insertable_def)
next
  case (Inr data)
  with assms(2) consider "dict_get data pk = VNone"
    | "List.find (\<lambda>r. map_of r pk = Some (dict_get data pk)) db \<noteq> None"
    | "db_reject E db data \<noteq> None"
    by (auto simp: not_insertable_def)
  then show ?thesis
  proof cases
    case 1
    with Inr show ?thesis by (simp add: not_insertable_def)
  next
    case 2
    then obtain r where "List.find (\<lambda>r. map_of r pk = Some (dict_get data pk)) db = Some r"
      by blast
    then have "List.find (\<lambda>r. map_of r pk = Some (dict_get data pk)) (db @ ext) = Some r"
      by (rule find_append_Some)
    with Inr show ?thesis by (simp add: not_insertable_def)
  next
    case 3
    with assms(1) have "db_reject E (db @ ext) data \<noteq> None"
      unfolding stable_constraints_def by blast
    with Inr show ?thesis by (simp add: not_insertable_def)
  qed
qed

lemma not_insertable_loop:
  assumes "stable_constraints E" and "pending s = []" and "item \<in> set items"
  shows "not_insertable E A pk cols (committed (importar_loop E A pk cols items s)) item"
  using assms(2,3)
proof (induction items arbitrary: s)
  case Nil
  then show ?case by simp
next
  case (Cons x items)
  let ?s1 = "importar_item E A pk cols s x"
  from Cons.prems(1) have p: "pending ?s1 = []" by (rule step_pending)
  show ?case
  proof (cases "item \<in> set items")
    case True
    from Cons.IH [OF p True] show ?thesis by simp
  next
    case False
    with Cons.prems(2) have x: "item = x" by simp
    from loop_extends [OF p, of E A pk cols items] obtain ext where
      ext: "committed (importar_loop E A pk cols items ?s1) = committed ?s1 @ ext" by blast
    from not_insertable_step [OF Cons.prems(1), of E A pk cols x]
    have "not_insertable E A pk cols (committed ?s1 @ ext) x"
      by (rule not_insertable_extends [OF assms(1)])
    with ext x show ?thesis by simp
  qed
qed

lemma step_not_insertable:
  assumes "pending t = []" and "not_insertable E A pk cols (committed t) item"
  shows "committed (importar_item E A pk cols t item) = committed t
     \<and> insertados (importar_item E A pk cols t item) = insertados t"
  using assms
  by (auto simp: not_insertable_def importar_item_def try_body_def except_handler_def
      session_rollback_def session_commit_def session_add_def session_get_def Let_def
      split: sum.splits option.splits)

lemma loop_not_insertable:
  assumes "pending t = []"
    and "\<And>item. item \<in> set items \<Longrightarrow> not_insertable E A pk cols (committed t) item"
  shows "committed (importar_loop E A pk cols items t) = committed t
     \<and> insertados (importar_loop E A pk cols items t) = insertados t"
  using assms
proof (induction items arbitrary: t)
  case Nil
  show ?case by simp
next
  case (Cons x items)
  let ?t1 = "importar_item E A pk cols t x"
  from Cons.prems(1) have p: "pending ?t1 = []" by (rule step_pending)
  from step_not_insertable [OF Cons.prems(1), of E A pk cols x] Cons.prems(2)
  have c: "committed ?t1 = committed t" "insertados ?t1 = insertados t" by simp_all
  have "committed (importar_loop E A pk cols items ?t1) = committed ?t1
     \<and> insertados (importar_loop E A pk cols items ?t1) = insertados ?t1"
    by (rule Cons.IH [OF p]) (simp add: c Cons.prems(2))
  with c show ?case by simp
qed

lemma loop_committed_length:
  assumes "pending s = []"
  shows "length (committed (importar_loop E A pk cols items s)) + insertados s
     = length (committed s) + insertados (importar_loop E A pk cols items s)"
  using assms
proof (induction items arbitrary: s)
  case Nil
  show ?case by simp
next
  case (Cons item items)
  let ?s1 = "importar_item E A pk cols s item"
  from Cons.prems have p: "pending ?s1 = []" by (rule step_pending)
  have "length (committed ?s1) + insertados s = length (committed s) + insertados ?s1"
    using Cons.prems
    by (cases rule: step_cases [where E = E and A = A and pk = pk and cols = cols and item = item])
      simp_all
  with Cons.IH [OF p] show ?case by simp
qed

text \<open>
  C1, as the code has it: every record that the first run inserts or skips as a duplicate
  is skipped as a duplicate by the second run, so the duplicates of the second run are at
  least the inserted and the duplicates of the first run together.  When the constraints
  of the database are stable, the second run inserts nothing and leaves the table as it
  is.  When the first run counts no error, the second run inserts nothing, counts no
  error, leaves the table as it is, and its duplicates are exactly the inserted and the
  duplicates of the first run together.
\<close>

theorem reimport_skips:
  "insertados (importar_items E A root db) + duplicados (importar_items E A root db)
     \<le> duplicados (importar_items E A root (committed (importar_items E A root db)))
   \<and> (stable_constraints E \<longrightarrow>
        insertados (importar_items E A root (committed (importar_items E A root db))) = 0
        \<and> committed (importar_items E A root (committed (importar_items E A root db)))
            = committed (importar_items E A root db))
   \<and> (errores (importar_items E A root db) = 0 \<longrightarrow>
        insertados (importar_items E A root (committed (importar_items E A root db))) = 0
        \<and> errores (importar_items E A root (committed (importar_items E A root db))) = 0
        \<and> duplicados (importar_items E A root (committed (importar_items E A root db)))
            = insertados (importar_items E A root db) + duplicados (importar_items E A root db)
        \<and> committed (importar_items E A root (committed (importar_items E A root db)))
            = committed (importar_items E A root db))"
proof -
  let ?pk = "pk_name_of (model A)" and ?cols = "model_columns (model A)"
  let ?items = "findall root (item_tag A)"
  let ?init = "\<lambda>rows. \<lparr>committed = rows, pending = [], insertados = 0, duplicados = 0,
     errores = 0, printed = [MsgImportando]\<rparr> :: 'a state"
  let ?s1 = "importar_loop E A ?pk ?cols ?items (?init db)"
  let ?t0 = "?init (committed ?s1)"
  let ?s2 = "importar_loop E A ?pk ?cols ?items ?t0"
  let ?n = "length (filter (es_duplicado E A ?pk ?cols ?s1) ?items)"
  have 1: "insertados ?s1 + duplicados ?s1 \<le> ?n"
    using loop_known [of "?init db" E A ?pk ?cols ?items] by simp
  have "es_duplicado E A ?pk ?cols ?t0 = es_duplicado E A ?pk ?cols ?s1"
    by (rule ext) (rule es_duplicado_cong, simp)
  then have 2: "?n \<le> duplicados ?s2"
    using loop_skips_known [of ?t0 E A ?pk ?cols ?items] by simp
  have sum1: "insertados ?s1 + duplicados ?s1 + errores ?s1 = length ?items"
    by (simp add: loop_counters_sum)
  have sum2: "insertados ?s2 + duplicados ?s2 + errores ?s2 = length ?items"
    by (simp add: loop_counters_sum)
  have len: "length (committed ?s2) = length (committed ?s1) + insertados ?s2"
    using loop_committed_length [of ?t0 E A ?pk ?cols ?items] by simp
  obtain ext where ext: "committed ?s2 = committed ?s1 @ ext"
    using loop_extends [of ?t0 E A ?pk ?cols ?items] by auto
  have same: "insertados ?s2 = 0 \<Longrightarrow> committed ?s2 = committed ?s1"
    using len ext by simp
  from 1 2 have a: "insertados ?s1 + duplicados ?s1 \<le> duplicados ?s2" by simp
  have b: "errores ?s1 = 0 \<Longrightarrow> insertados ?s2 = 0 \<and> errores ?s2 = 0
      \<and> duplicados ?s2 = insertados ?s1 + duplicados ?s1"
    using a sum1 sum2 by simp
  have c: "insertados ?s2 = 0 \<and> committed ?s2 = committed ?s1" if st: "stable_constraints E"
  proof -
    have "not_insertable E A ?pk ?cols (committed ?t0) item" if "item \<in> set ?items" for item
      using not_insertable_loop [OF st _ that, of "?init db" A ?pk ?cols] by simp
    from loop_not_insertable [of ?t0 ?items E A ?pk ?cols, OF _ this]
    show ?thesis by simp
  qed
  from a b c same show ?thesis
    unfolding importar_items_def by blast
qed

theorem reimport_skips_witness:
  "errores (importar_items env0 args0
      (documento [registro ''1'' ''Ana'', registro ''2'' ''Carla'']) []) = 0
   \<and> insertados (importar_items env0 args0
      (documento [registro ''1'' ''Ana'', registro ''2'' ''Carla'']) []) = 2
   \<and> insertados (importar_items env0 args0
      (documento [registro ''1'' ''Ana'', registro ''2'' ''Carla''])
      (committed (importar_items env0 args0
         (documento [registro ''1'' ''Ana'', registro ''2'' ''Carla'']) []))) = 0
   \<and> duplicados (importar_items env0 args0
      (documento [registro ''1'' ''Ana'', registro ''2'' ''Carla''])
      (committed (importar_items env0 args0
         (documento [registro ''1'' ''Ana'', registro ''2'' ''Carla'']) []))) = 2
   \<and> stable_constraints env1
   \<and> errores (importar_items env1 args0
      (documento [registro ''1'' ''Ana'', registro ''2'' ''Ana'', registro ''1'' ''Beto'']) []) = 1
   \<and> insertados (importar_items env1 args0
      (documento [registro ''1'' ''Ana'', registro ''2'' ''Ana'', registro ''1'' ''Beto''])
      (committed (importar_items env1 args0
         (documento [registro ''1'' ''Ana'', registro ''2'' ''Ana'', registro ''1'' ''Beto''])
         []))) = 0"
proof -
  let ?d = "documento [registro ''1'' ''Ana'', registro ''2'' ''Carla'']"
  let ?d1 = "documento [registro ''1'' ''Ana'', registro ''2'' ''Ana'', registro ''1'' ''Beto'']"
  have e: "errores (importar_items env0 args0 ?d []) = 0" by code_simp
  have i: "insertados (importar_items env0 args0 ?d []) = 2" by code_simp
  have d: "duplicados (importar_items env0 args0 ?d []) = 0" by code_simp
  have st: "stable_constraints env1"
    by (simp add: stable_constraints_def env1_def)
  have e1: "errores (importar_items env1 args0 ?d1 []) = 1" by code_simp
  from reimport_skips [of env0 args0 ?d "[]"] reimport_skips [of env1 args0 ?d1 "[]"]
    e i d st e1
  show ?thesis by simp
qed

text \<open>
  A file with two records of primary key 1, imported twice into an empty table: the first
  run inserts one record, and the second run counts two duplicates.
\<close>

theorem reimport_duplicates_counterexample:
  "insertados (importar_items env0 args0
       (documento [registro ''1'' ''Ana'', registro ''1'' ''Beto'']) []) = 1
   \<and> insertados (importar_items env0 args0
       (documento [registro ''1'' ''Ana'', registro ''1'' ''Beto''])
       (committed (importar_items env0 args0
          (documento [registro ''1'' ''Ana'', registro ''1'' ''Beto'']) []))) = 0
   \<and> duplicados (importar_items env0 args0
       (documento [registro ''1'' ''Ana'', registro ''1'' ''Beto''])
       (committed (importar_items env0 args0
          (documento [registro ''1'' ''Ana'', registro ''1'' ''Beto'']) []))) = 2"
  by code_simp

end
